theory Spec2Isabelle
  imports Main "HOL-Library.Word"
begin

section \<open>Display protocol driver (display\_driver.py, class ST7789)\<close>

text \<open>
  The driver talks to three kinds of hardware: GPIO lines, the SPI bus and the clock
  (\<^verbatim>\<open>time.sleep_ms\<close>). Every effect is recorded, in program order, as one event of a
  bus trace. A method of the class becomes a function from the driver object to the trace
  it produces. The optional pins are modelled by their presence (\<^verbatim>\<open>if self.cs_pin:\<close>).
\<close>

type_synonym byte = "8 word"

datatype pin = RST | DC | CS | BL

datatype bus_event
  = PinInit pin bool
  | PinWrite pin bool
  | SpiWrite "byte list"
  | SleepMs int

record st7789 =
  width :: int
  height :: int
  reset_pin :: bool
  dc_pin :: bool
  cs_pin :: bool
  bl_pin :: bool
  rotation :: int

definition SWRESET :: byte where "SWRESET = 0x01"
definition SLPOUT :: byte where "SLPOUT = 0x11"
definition DISPON :: byte where "DISPON = 0x29"
definition CASET :: byte where "CASET = 0x2A"
definition RASET :: byte where "RASET = 0x2B"
definition RAMWR :: byte where "RAMWR = 0x2C"
definition COLMOD :: byte where "COLMOD = 0x3A"
definition MADCTL :: byte where "MADCTL = 0x36"

definition WHITE :: int where "WHITE = 0x0000"
definition YELLOW :: int where "YELLOW = 0x001F"
definition GREEN :: int where "GREEN = 0xF81F"
definition BLUE :: int where "BLUE = 0xFFE0"
definition BLACK :: int where "BLACK = 0xFFFF"

text \<open>
  \<^verbatim>\<open>struct.pack(">H", v)\<close> and \<^verbatim>\<open>struct.pack(">HH", a, b)\<close> of MicroPython's ustruct:
  the high byte first, each value cut to its low 16 bits.
\<close>

definition pack_H :: "int \<Rightarrow> byte list" where
  "pack_H v = [word_of_int (v div 256), word_of_int v]"

definition pack_HH :: "int \<Rightarrow> int \<Rightarrow> byte list" where
  "pack_HH a b = pack_H a @ pack_H b"

text \<open>\<^verbatim>\<open>data * n\<close> on a bytes object: \<open>n\<close> copies, none when \<open>n \<le> 0\<close>.\<close>

definition bytes_repeat :: "byte list \<Rightarrow> int \<Rightarrow> byte list" where
  "bytes_repeat bs n = concat (replicate (nat n) bs)"

text \<open>\<^verbatim>\<open>len(range(0, stop, step))\<close> for a positive step.\<close>

definition range_count :: "int \<Rightarrow> int \<Rightarrow> nat" where
  "range_count stop step = (if stop \<le> 0 then 0 else nat ((stop + step - 1) div step))"

definition reset :: "st7789 \<Rightarrow> bus_event list" where
  "reset d =
     (if reset_pin d
      then [PinWrite RST True, SleepMs 100,
            PinWrite RST False, SleepMs 100,
            PinWrite RST True, SleepMs 200]
      else [])"

definition get_madctl :: "st7789 \<Rightarrow> byte" where
  "get_madctl d =
     (if rotation d = 0 then 0x00
      else if rotation d = 1 then 0x60
      else if rotation d = 2 then 0xC0
      else 0xA0)"

definition write_data :: "st7789 \<Rightarrow> byte list \<Rightarrow> bus_event list" where
  "write_data d bs =
     (if dc_pin d then [PinWrite DC True] else []) @
     (if cs_pin d then [PinWrite CS False] else []) @
     [SpiWrite bs] @
     (if cs_pin d then [PinWrite CS True] else [])"

definition write_command :: "st7789 \<Rightarrow> byte \<Rightarrow> byte list option \<Rightarrow> bus_event list" where
  "write_command d command data =
     (if dc_pin d then [PinWrite DC False] else []) @
     (if cs_pin d then [PinWrite CS False] else []) @
     [SpiWrite [command]] @
     (if cs_pin d then [PinWrite CS True] else []) @
     (case data of None \<Rightarrow> [] | Some bs \<Rightarrow> write_data d bs)"

definition set_window :: "st7789 \<Rightarrow> int \<Rightarrow> int \<Rightarrow> int \<Rightarrow> int \<Rightarrow> bus_event list" where
  "set_window d x0 y0 x1 y1 =
     (let (x0', y0', x1', y1') =
            (if rotation d = 1 \<or> rotation d = 3 then (y0, x0, y1, x1) else (x0, y0, x1, y1))
      in write_command d CASET (Some (pack_HH x0' x1')) @
         write_command d RASET (Some (pack_HH y0' y1')) @
         write_command d RAMWR None)"

text \<open>
  \<^verbatim>\<open>fill_rect\<close> itself only calls \<^verbatim>\<open>self.set_window\<close> once and \<^verbatim>\<open>self._write_data\<close>
  once per loop iteration. Its model returns the calls it makes; \<open>run_calls\<close> expands them
  into the bus trace. The \<^verbatim>\<open>for _ in range(0, pixels, chunk_size)\<close> loop fixes its number
  of iterations before the body starts to decrement \<^verbatim>\<open>pixels\<close>.
\<close>

datatype drv_call
  = Set_window int int int int
  | Write_data "byte list"

primrec fill_loop :: "byte list \<Rightarrow> nat \<Rightarrow> int \<Rightarrow> drv_call list" where
  "fill_loop pixel_data 0 pixels = []"
| "fill_loop pixel_data (Suc n) pixels =
     Write_data (bytes_repeat pixel_data (min 512 pixels)) #
     fill_loop pixel_data n (pixels - 512)"

definition fill_rect :: "st7789 \<Rightarrow> int \<Rightarrow> int \<Rightarrow> int \<Rightarrow> int \<Rightarrow> int \<Rightarrow> drv_call list" where
  "fill_rect d x y w h color =
     (let x_end = min (x + w - 1) (width d - 1);
          y_end = min (y + h - 1) (height d - 1);
          pixel_data = pack_H color;
          pixels = w * h
      in Set_window x y x_end y_end #
         fill_loop pixel_data (range_count pixels 512) pixels)"

definition fill :: "st7789 \<Rightarrow> int \<Rightarrow> drv_call list" where
  "fill d color = fill_rect d 0 0 (width d) (height d) color"

definition pixel :: "st7789 \<Rightarrow> int \<Rightarrow> int \<Rightarrow> int \<Rightarrow> drv_call list" where
  "pixel d x y color =
     (if 0 \<le> x \<and> x < width d \<and> 0 \<le> y \<and> y < height d
      then [Set_window x y x y, Write_data (pack_H color)]
      else [])"

fun run_call :: "st7789 \<Rightarrow> drv_call \<Rightarrow> bus_event list" where
  "run_call d (Set_window x0 y0 x1 y1) = set_window d x0 y0 x1 y1"
| "run_call d (Write_data bs) = write_data d bs"

definition run_calls :: "st7789 \<Rightarrow> drv_call list \<Rightarrow> bus_event list" where
  "run_calls d cs = concat (map (run_call d) cs)"

text \<open>
  The constructor: \<^verbatim>\<open>self.rotation = rotation % 4\<close>, pin set-up, hardware reset, the
  initialisation commands and a first full-screen fill.
\<close>

definition ST7789_init ::
  "int \<Rightarrow> int \<Rightarrow> bool \<Rightarrow> bool \<Rightarrow> bool \<Rightarrow> bool \<Rightarrow> int \<Rightarrow> st7789 \<times> bus_event list" where
  "ST7789_init w h rst dc cs bl rot =
     (let d = \<lparr>width = w, height = h, reset_pin = rst, dc_pin = dc, cs_pin = cs,
               bl_pin = bl, rotation = rot mod 4\<rparr>
      in (d,
          (if rst then [PinInit RST True] else []) @
          (if dc then [PinInit DC False] else []) @
          (if cs then [PinInit CS True] else []) @
          (if bl then [PinInit BL True] else []) @
          reset d @
          write_command d SWRESET None @ [SleepMs 150] @
          write_command d SLPOUT None @ [SleepMs 255] @
          write_command d COLMOD (Some [0x55]) @
          write_command d MADCTL (Some [get_madctl d]) @
          write_command d DISPON None @ [SleepMs 100] @
          run_calls d (fill d BLACK)))"

subsection \<open>Observations on traces\<close>

text \<open>The windows requested and the number of pixels (two bytes each) of every transfer.\<close>

fun windows :: "drv_call list \<Rightarrow> (int \<times> int \<times> int \<times> int) list" where
  "windows [] = []"
| "windows (Set_window x0 y0 x1 y1 # cs) = (x0, y0, x1, y1) # windows cs"
| "windows (Write_data bs # cs) = windows cs"

fun chunk_pixels :: "drv_call list \<Rightarrow> nat list" where
  "chunk_pixels [] = []"
| "chunk_pixels (Set_window x0 y0 x1 y1 # cs) = chunk_pixels cs"
| "chunk_pixels (Write_data bs # cs) = (length bs div 2) # chunk_pixels cs"

text \<open>The byte strings that reach the SPI bus, in order.\<close>

fun spi_payloads :: "bus_event list \<Rightarrow> byte list list" where
  "spi_payloads [] = []"
| "spi_payloads (SpiWrite bs # es) = bs # spi_payloads es"
| "spi_payloads (e # es) = spi_payloads es"

text \<open>Reading a big-endian 16-bit value back from two bytes.\<close>

fun be16 :: "byte list \<Rightarrow> int" where
  "be16 [hi, lo] = uint hi * 256 + uint lo"
| "be16 bs = -1"

text \<open>
  The timeline of the reset line in a trace: each write to the line opens a phase at that
  level, lasting for the delays that follow it.
\<close>

fun leading_delay :: "bus_event list \<Rightarrow> int" where
  "leading_delay [] = 0"
| "leading_delay (SleepMs n # es) = n + leading_delay es"
| "leading_delay (PinWrite RST v # es) = 0"
| "leading_delay (e # es) = leading_delay es"

fun phases :: "bus_event list \<Rightarrow> (bool \<times> int) list" where
  "phases [] = []"
| "phases (PinWrite RST v # es) = (v, leading_delay es) # phases es"
| "phases (e # es) = phases es"

text \<open>
  The reset pulse as the specification words it: the line is held low for at least 100 ms,
  then high for at least 100 ms, then left released for at least 200 ms.
\<close>

definition spec_reset_sequence :: "(bool \<times> int) list \<Rightarrow> bool" where
  "spec_reset_sequence ps =
     (case ps of
        [(l1, t1), (l2, t2), (l3, t3)] \<Rightarrow>
          \<not> l1 \<and> 100 \<le> t1 \<and> l2 \<and> 100 \<le> t2 \<and> 200 \<le> t3
      | _ \<Rightarrow> False)"

section \<open>Joystick driver (joystick\_driver.py, class Joystick)\<close>

text \<open>
  The joystick object is a record of its attributes. The hardware it reads (the two ADC
  channels, the button pin and \<^verbatim>\<open>time.ticks_ms()\<close>) is an input of every method: the
  value read is passed as an argument, in the order the method reads it. The direction
  strings \<^verbatim>\<open>'center'\<close>, \<^verbatim>\<open>'up'\<close>, \<^verbatim>\<open>'down'\<close>, \<^verbatim>\<open>'left'\<close>, \<^verbatim>\<open>'right'\<close> are the
  constructors of \<open>direction\<close>. \<^verbatim>\<open>time.ticks_diff(a, b)\<close> is the difference \<open>a - b\<close> of
  two millisecond readings (the wrap-around of the tick counter is left out).

  \<^verbatim>\<open>_button_state_for_click\<close> and \<^verbatim>\<open>_last_button_value_for_click\<close> are class attributes
  (0 and 1) until an instance writes them. \<^verbatim>\<open>_button_was_pressed_for_click\<close> is assigned
  neither in the class body nor in \<^verbatim>\<open>__init__\<close>: it is an optional field, \<open>None\<close> while the
  attribute does not exist, and reading it then raises \<^verbatim>\<open>AttributeError\<close>.
\<close>

datatype direction = Center | Up | Down | Left | Right

datatype py_error = AttributeError | IndexError

record joystick =
  x_center :: int
  y_center :: int
  threshold :: int
  debounce_ms :: int
  click_threshold_ms :: int
  last_button_state :: int
  last_button_change_time :: int
  button_pressed_since_last_check :: bool
  button_down_start_time :: int
  last_direction :: direction
  last_direction_time :: int
  direction_repeat_delay_ms :: int
  button_was_pressed_for_click :: "bool option"
  button_state_for_click :: int
  last_button_value_for_click :: int

definition ticks_diff :: "int \<Rightarrow> int \<Rightarrow> int" where
  "ticks_diff a b = a - b"

text \<open>
  \<^verbatim>\<open>__init__\<close>: \<open>button_value\<close> is what \<^verbatim>\<open>self.button.value()\<close> returns, \<open>t1\<close> and \<open>t2\<close> are
  the two readings of \<^verbatim>\<open>time.ticks_ms()\<close>.
\<close>

definition Joystick_init ::
  "int \<Rightarrow> int \<Rightarrow> int \<Rightarrow> int \<Rightarrow> int \<Rightarrow> int \<Rightarrow> int \<Rightarrow> int \<Rightarrow> joystick" where
  "Joystick_init xc yc thr debounce click_threshold button_value t1 t2 =
     \<lparr>x_center = xc, y_center = yc, threshold = thr,
      debounce_ms = debounce, click_threshold_ms = click_threshold,
      last_button_state = button_value,
      last_button_change_time = t1,
      button_pressed_since_last_check = False,
      button_down_start_time = 0,
      last_direction = Center,
      last_direction_time = t2,
      direction_repeat_delay_ms = 150,
      button_was_pressed_for_click = None,
      button_state_for_click = 0,
      last_button_value_for_click = 1\<rparr>"

text \<open>The \<^verbatim>\<open>if\<close>/\<^verbatim>\<open>elif\<close> chain of \<^verbatim>\<open>get_direction\<close> that sets \<^verbatim>\<open>current_direction\<close>.\<close>

definition current_direction :: "joystick \<Rightarrow> int \<Rightarrow> int \<Rightarrow> direction" where
  "current_direction j x_val y_val =
     (if x_val > x_center j + threshold j then Right
      else if x_val < x_center j - threshold j then Left
      else if y_val > y_center j + threshold j then Down
      else if y_val < y_center j - threshold j then Up
      else Center)"

definition get_direction ::
  "joystick \<Rightarrow> int \<Rightarrow> int \<Rightarrow> int \<Rightarrow> bool \<Rightarrow> direction \<times> joystick" where
  "get_direction j x_val y_val current_time allow_repeat =
     (let cur = current_direction j x_val y_val
      in if allow_repeat then
           (if cur \<noteq> Center then
              (if cur \<noteq> last_direction j \<or>
                  ticks_diff current_time (last_direction_time j) > direction_repeat_delay_ms j
               then (cur, j\<lparr>last_direction := cur, last_direction_time := current_time\<rparr>)
               else (Center, j))
            else (Center, j\<lparr>last_direction := Center\<rparr>))
         else
           (if cur \<noteq> last_direction j
            then (cur, j\<lparr>last_direction := cur\<rparr>)
            else (Center, j)))"

definition is_button_down :: "joystick \<Rightarrow> int \<Rightarrow> int \<Rightarrow> bool \<times> joystick" where
  "is_button_down j current_time raw_button_state =
     (let j1 = (if raw_button_state \<noteq> last_button_state j
                then j\<lparr>last_button_change_time := current_time,
                       last_button_state := raw_button_state\<rparr>
                else j)
      in if ticks_diff current_time (last_button_change_time j1) > debounce_ms j1
         then (last_button_state j1 = 0, j1)
         else (last_button_state j1 = 0, j1))"

text \<open>
  \<^verbatim>\<open>is_button_clicked_once\<close>. The conditions are evaluated left to right with
  short-circuit \<^verbatim>\<open>and\<close>; \<open>clicked_once_tail\<close> is the last \<^verbatim>\<open>if\<close> and the final
  \<^verbatim>\<open>return False\<close>.
\<close>

definition clicked_once_tail :: "bool \<Rightarrow> joystick \<Rightarrow> bool \<times> joystick" where
  "clicked_once_tail pressed_now j =
     (if \<not> pressed_now \<and> button_pressed_since_last_check j
      then (False, j\<lparr>button_pressed_since_last_check := False\<rparr>)
      else (False, j))"

definition is_button_clicked_once ::
  "joystick \<Rightarrow> int \<Rightarrow> int \<Rightarrow> py_error + (bool \<times> joystick)" where
  "is_button_clicked_once j current_time raw_button_state =
     (let (pressed_now, j1) = is_button_down j current_time raw_button_state
      in if pressed_now then
           (case button_was_pressed_for_click j1 of
              None \<Rightarrow> Inl AttributeError
            | Some was \<Rightarrow>
                if \<not> was
                then Inr (clicked_once_tail pressed_now
                            (j1\<lparr>button_was_pressed_for_click := Some True,
                                button_pressed_since_last_check := False\<rparr>))
                else Inr (clicked_once_tail pressed_now j1))
         else
           (case button_was_pressed_for_click j1 of
              None \<Rightarrow> Inl AttributeError
            | Some was \<Rightarrow>
                if was
                then Inr (True, j1\<lparr>button_was_pressed_for_click := Some False,
                                    button_pressed_since_last_check := True\<rparr>)
                else Inr (clicked_once_tail pressed_now j1)))"

definition check_for_single_click :: "joystick \<Rightarrow> int \<Rightarrow> int \<Rightarrow> bool \<times> joystick" where
  "check_for_single_click j current_value current_time =
     (let (clicked, j1) =
        (if button_state_for_click j = 0 then
           (if current_value = 0 \<and> last_button_value_for_click j = 1 then
              (if ticks_diff current_time (last_button_change_time j) > debounce_ms j
               then (False, j\<lparr>button_state_for_click := 1,
                               button_down_start_time := current_time,
                               last_button_change_time := current_time\<rparr>)
               else (False, j))
            else (False, j))
         else if button_state_for_click j = 1 then
           (if current_value = 1 then
              (if ticks_diff current_time (last_button_change_time j) > debounce_ms j
               then (ticks_diff current_time (button_down_start_time j) < click_threshold_ms j,
                     j\<lparr>button_state_for_click := 0,
                       last_button_change_time := current_time\<rparr>)
               else (False, j))
            else (False, j))
         else (False, j))
      in (clicked, j1\<lparr>last_button_value_for_click := current_value\<rparr>))"

text \<open>
  \<^verbatim>\<open>calibrate\<close>. What it prints is a list of console messages; what it returns is a
  Python value. Each element \<open>(t, x, y)\<close> of \<open>readings\<close> is one evaluation of the loop
  condition: \<open>t\<close> is the reading of \<^verbatim>\<open>time.ticks_ms()\<close> there, and \<open>(x, y)\<close> is what
  \<^verbatim>\<open>get_raw_values()\<close> returns if the body runs. A run whose readings end before the
  window has closed is still in its loop: the result is \<open>None\<close>.
\<close>

datatype console = Calibration_start int | Calibration_done int int | Calibration_failed

datatype py_value = PyNone | PyTuple int int

fun calibrate_loop ::
  "int \<Rightarrow> int \<Rightarrow> (int \<times> int \<times> int) list \<Rightarrow> int \<Rightarrow> int \<Rightarrow> int \<Rightarrow> (int \<times> int \<times> int) option" where
  "calibrate_loop start_time limit [] x_sum y_sum samples = None"
| "calibrate_loop start_time limit ((t, x_val, y_val) # rs) x_sum y_sum samples =
     (if ticks_diff t start_time < limit
      then calibrate_loop start_time limit rs (x_sum + x_val) (y_sum + y_val) (samples + 1)
      else Some (x_sum, y_sum, samples))"

definition calibrate ::
  "joystick \<Rightarrow> int \<Rightarrow> int \<Rightarrow> (int \<times> int \<times> int) list \<Rightarrow>
   (joystick \<times> console list \<times> py_value) option" where
  "calibrate j calibration_time_s start_time readings =
     (case calibrate_loop start_time (calibration_time_s * 1000) readings 0 0 0 of
        None \<Rightarrow> None
      | Some (x_sum, y_sum, samples) \<Rightarrow>
          if samples > 0
          then (let j1 = j\<lparr>x_center := x_sum div samples, y_center := y_sum div samples\<rparr>
                in Some (j1,
                         [Calibration_start calibration_time_s,
                          Calibration_done (x_center j1) (y_center j1)],
                         PyNone))
          else Some (j, [Calibration_start calibration_time_s, Calibration_failed], PyNone))"

subsection \<open>Polling loops\<close>

text \<open>
  A caller polls the joystick once per tick. \<open>poll_direction\<close> runs
  \<^verbatim>\<open>get_direction(allow_repeat=False)\<close> over a list of readings \<open>(x, y, time)\<close>,
  \<open>poll_click\<close> runs \<^verbatim>\<open>check_for_single_click()\<close> over a list of readings
  \<open>(value, time)\<close>; both return what each call returned and the final object.
\<close>

fun poll_direction ::
  "joystick \<Rightarrow> (int \<times> int \<times> int) list \<Rightarrow> direction list \<times> joystick" where
  "poll_direction j [] = ([], j)"
| "poll_direction j ((x, y, t) # rs) =
     (let (d, j1) = get_direction j x y t False;
          (ds, j2) = poll_direction j1 rs
      in (d # ds, j2))"

fun poll_click :: "joystick \<Rightarrow> (int \<times> int) list \<Rightarrow> bool list \<times> joystick" where
  "poll_click j [] = ([], j)"
| "poll_click j ((v, t) # rs) =
     (let (c, j1) = check_for_single_click j v t;
          (cs, j2) = poll_click j1 rs
      in (c # cs, j2))"

text \<open>The number of clicks reported in a run.\<close>

definition clicks :: "bool list \<Rightarrow> nat" where
  "clicks cs = length (filter (\<lambda>c. c) cs)"

section \<open>Menu rendering (ui\_manager.py, class UIManager)\<close>

text \<open>
  The UI manager draws through the driver object it holds. Each of its methods returns the
  list of driver methods it calls, in order: \<^verbatim>\<open>screen.fill\<close>, \<^verbatim>\<open>screen.fill_rect\<close> and
  \<^verbatim>\<open>screen.text\<close>. The retained menu state is the dictionary \<^verbatim>\<open>_last_menu_state\<close>; its
  key \<^verbatim>\<open>'title_text'\<close> is absent at first and read with \<^verbatim>\<open>.get\<close>, which gives \<^verbatim>\<open>None\<close>
  for an absent key as for a stored \<^verbatim>\<open>None\<close>. List and string comparison with \<^verbatim>\<open>!=\<close> is
  by value.
\<close>

datatype screen_call
  = Fill int
  | Fill_rect int int int int int
  | Text string int int int

record menu_state =
  selected_idx :: int
  items :: "string list option"
  start_y :: int
  title_text :: "string option"

record ui_manager =
  ui_width :: int
  ui_height :: int
  text_color :: int
  bg_color :: int
  highlight_text_color :: int
  highlight_bg_color :: int
  char_width_eng :: int
  char_height :: int
  line_spacing :: int
  last_menu_state :: menu_state

definition UIManager_init ::
  "st7789 \<Rightarrow> int option \<Rightarrow> int option \<Rightarrow> int option \<Rightarrow> ui_manager" where
  "UIManager_init screen default_text_color default_bg_color default_highlight_color =
     \<lparr>ui_width = width screen, ui_height = height screen,
      text_color = (case default_text_color of Some c \<Rightarrow> c | None \<Rightarrow> WHITE),
      bg_color = (case default_bg_color of Some c \<Rightarrow> c | None \<Rightarrow> BLACK),
      highlight_text_color = (case default_highlight_color of Some c \<Rightarrow> c | None \<Rightarrow> GREEN),
      highlight_bg_color = YELLOW,
      char_width_eng = 8, char_height = 16, line_spacing = 4,
      last_menu_state = \<lparr>selected_idx = -1, items = None, start_y = 0, title_text = None\<rparr>\<rparr>"

definition clear_screen :: "ui_manager \<Rightarrow> int option \<Rightarrow> screen_call list" where
  "clear_screen ui color = [Fill (case color of Some c \<Rightarrow> c | None \<Rightarrow> bg_color ui)]"

text \<open>\<^verbatim>\<open>_draw_char_internal(ord(char), ...)\<close>: code points from 128 on are drawn as \<^verbatim>\<open>'?'\<close>.\<close>

definition draw_char_internal ::
  "ui_manager \<Rightarrow> char \<Rightarrow> int \<Rightarrow> int \<Rightarrow> int \<Rightarrow> int option \<Rightarrow> screen_call list" where
  "draw_char_internal ui c x y color bg =
     (case bg of Some b \<Rightarrow> [Fill_rect x y (char_width_eng ui) (char_height ui) b] | None \<Rightarrow> []) @
     [Text [if (of_char c :: nat) < 128 then c else CHR ''?''] x y color]"

text \<open>The loop of \<^verbatim>\<open>display_text_line\<close>, with its \<^verbatim>\<open>break\<close>; the result is \<^verbatim>\<open>current_x\<close>.\<close>

fun text_line_loop ::
  "ui_manager \<Rightarrow> string \<Rightarrow> int \<Rightarrow> int \<Rightarrow> int \<Rightarrow> int option \<Rightarrow> int option \<Rightarrow> int \<Rightarrow>
   screen_call list \<times> int" where
  "text_line_loop ui [] x y color bg max_width current_x = ([], current_x)"
| "text_line_loop ui (c # cs) x y color bg max_width current_x =
     (if (case max_width of Some m \<Rightarrow> current_x + char_width_eng ui > x + m | None \<Rightarrow> False)
      then ([], current_x)
      else (let (rest, cx) =
                  text_line_loop ui cs x y color bg max_width (current_x + char_width_eng ui)
            in (draw_char_internal ui c current_x y color bg @ rest, cx)))"

definition display_text_line ::
  "ui_manager \<Rightarrow> string \<Rightarrow> int \<Rightarrow> int \<Rightarrow> int option \<Rightarrow> int option \<Rightarrow> int option \<Rightarrow>
   screen_call list \<times> int" where
  "display_text_line ui text x y text_colour bg max_width =
     text_line_loop ui text x y
       (case text_colour of Some c \<Rightarrow> c | None \<Rightarrow> text_color ui) bg max_width x"

text \<open>\<^verbatim>\<open>text.split(' ')\<close>: cut at every single space, empty words kept.\<close>

fun split_space :: "string \<Rightarrow> string list" where
  "split_space [] = [[]]"
| "split_space (c # cs) =
     (if c = CHR '' '' then [] # split_space cs
      else (case split_space cs of w # ws \<Rightarrow> (c # w) # ws | [] \<Rightarrow> [[c]]))"

text \<open>
  The loop of \<^verbatim>\<open>display_text_multiline\<close> over the words, with its early \<^verbatim>\<open>return\<close>,
  followed by the drawing of the last line.
\<close>

fun multiline_loop ::
  "ui_manager \<Rightarrow> string list \<Rightarrow> int \<Rightarrow> int \<Rightarrow> int \<Rightarrow> int \<Rightarrow> int option \<Rightarrow> int \<Rightarrow> string \<Rightarrow>
   screen_call list" where
  "multiline_loop ui [] x y max_width color bg lh current_line =
     (if current_line \<noteq> []
      then fst (display_text_line ui current_line x y (Some color) bg (Some max_width))
      else [])"
| "multiline_loop ui (word # ws) x y max_width color bg lh current_line =
     (let test_line = current_line @ (if current_line \<noteq> [] then '' '' else []) @ word
      in if int (length test_line) * char_width_eng ui \<le> max_width
         then multiline_loop ui ws x y max_width color bg lh test_line
         else fst (display_text_line ui current_line x y (Some color) bg (Some max_width)) @
              (if y + lh + char_height ui > ui_height ui then []
               else multiline_loop ui ws x (y + lh) max_width color bg lh word))"

definition display_text_multiline ::
  "ui_manager \<Rightarrow> string \<Rightarrow> int \<Rightarrow> int \<Rightarrow> int \<Rightarrow> int option \<Rightarrow> int option \<Rightarrow> int option \<Rightarrow>
   screen_call list" where
  "display_text_multiline ui text x y max_width text_colour bg line_height =
     multiline_loop ui (split_space text) x y max_width
       (case text_colour of Some c \<Rightarrow> c | None \<Rightarrow> text_color ui) bg
       (case line_height of Some h \<Rightarrow> h | None \<Rightarrow> char_height ui + line_spacing ui) []"

definition draw_menu_item ::
  "ui_manager \<Rightarrow> int \<Rightarrow> string \<Rightarrow> int \<Rightarrow> int \<Rightarrow> bool \<Rightarrow> screen_call list" where
  "draw_menu_item ui index text sy title_height is_selected =
     (let y_pos = sy + title_height + index * (char_height ui + line_spacing ui * 2);
          item_height = char_height ui + line_spacing ui
      in Fill_rect 0 y_pos (ui_width ui) item_height
           (if is_selected then highlight_bg_color ui else bg_color ui) #
         fst (display_text_line ui text 5 (y_pos + line_spacing ui)
                (Some (if is_selected then highlight_text_color ui else text_color ui))
                None None))"

text \<open>\<^verbatim>\<open>items[i]\<close>: a negative index counts from the end, an index out of range raises.\<close>

definition py_index :: "'a list \<Rightarrow> int \<Rightarrow> py_error + 'a" where
  "py_index xs i =
     (let n = int (length xs); k = (if i < 0 then n + i else i)
      in if 0 \<le> k \<and> k < n then Inr (xs ! nat k) else Inl IndexError)"

text \<open>\<^verbatim>\<open>if title:\<close> holds for a string that is not empty.\<close>

definition truthy :: "string option \<Rightarrow> bool" where
  "truthy title = (case title of Some t \<Rightarrow> t \<noteq> [] | None \<Rightarrow> False)"

definition draw_all_items ::
  "ui_manager \<Rightarrow> string list \<Rightarrow> int \<Rightarrow> int \<Rightarrow> int \<Rightarrow> screen_call list" where
  "draw_all_items ui its sy title_height selected_index =
     concat (map (\<lambda>(i, item). draw_menu_item ui (int i) item sy title_height
                                (int i = selected_index))
                 (enumerate 0 its))"

definition draw_menu ::
  "ui_manager \<Rightarrow> string list \<Rightarrow> int \<Rightarrow> string option \<Rightarrow> int \<Rightarrow>
   py_error + (ui_manager \<times> screen_call list)" where
  "draw_menu ui its selected_index title sy =
     (let last_state = last_menu_state ui;
          need_full_refresh = (items last_state \<noteq> Some its \<or>
                               start_y last_state \<noteq> sy \<or>
                               title_text last_state \<noteq> title);
          title_height = (if truthy title then char_height ui + line_spacing ui else 0)
      in if need_full_refresh then
           Inr (ui,
                clear_screen ui None @
                (if truthy title then
                   Fill_rect 0 sy (ui_width ui) title_height (bg_color ui) #
                   display_text_multiline ui (the title) 5 sy (ui_width ui - 10)
                     (Some (highlight_text_color ui)) (Some (bg_color ui)) None @
                   draw_all_items ui its sy title_height selected_index
                 else []))
         else
           (let old_idx = selected_idx last_state
            in if old_idx \<noteq> selected_index then
                 (case py_index its old_idx of
                    Inl e \<Rightarrow> Inl e
                  | Inr old_item \<Rightarrow>
                      (case py_index its selected_index of
                         Inl e \<Rightarrow> Inl e
                       | Inr new_item \<Rightarrow>
                           Inr (ui\<lparr>last_menu_state :=
                                     \<lparr>selected_idx = selected_index, items = Some its,
                                      start_y = sy, title_text = title\<rparr>\<rparr>,
                                draw_menu_item ui old_idx old_item sy title_height False @
                                draw_menu_item ui selected_index new_item sy title_height True)))
               else Inr (ui, [])))"


section \<open>Properties of the display driver\<close>

subsection \<open>Chunked streaming\<close>

lemma length_pack_H: "length (pack_H c) = 2"
  by (simp add: pack_H_def)

lemma length_bytes_repeat: "length bs = 2 \<Longrightarrow> length (bytes_repeat bs n) = 2 * nat n"
  by (simp add: bytes_repeat_def length_concat sum_list_replicate)

lemma div512_step: "(p::int) div 512 = (p - 512) div 512 + 1"
  using div_add_self2 [of 512 "p - 512"] by simp

lemma mod512_step: "(p - 512) mod 512 = (p::int) mod 512"
  using mod_add_self2 [of "p - 512" 512] by simp

lemma range_count_step:
  assumes "0 < p"
  shows "range_count p 512 = Suc (range_count (p - 512) 512)"
proof (cases "p \<le> 512")
  case True
  with assms have "(p + 511) div 512 = 1" by simp
  with True assms show ?thesis by (simp add: range_count_def)
next
  case False
  have "(p + 511) div 512 = (p - 1) div 512 + 1"
    using div512_step [of "p + 511"] by simp
  moreover from False have "0 \<le> (p - 1) div 512" by simp
  ultimately show ?thesis using False assms
    by (simp add: range_count_def nat_add_distrib)
qed

lemma range_count_0: "range_count p 512 = 0 \<Longrightarrow> p \<le> 0"
proof (rule ccontr)
  assume a: "range_count p 512 = 0" and "\<not> p \<le> 0"
  then have "0 < p" by simp
  from range_count_step [OF this] a show False by simp
qed

lemma windows_fill_loop: "windows (fill_loop pd n p) = []"
  by (induction n arbitrary: p) simp_all


lemma chunk_pixels_fill_loop:
  "length pd = 2 \<Longrightarrow> n = range_count p 512 \<Longrightarrow>
   chunk_pixels (fill_loop pd n p) =
     replicate (nat (p div 512)) 512 @ (if p mod 512 = 0 \<or> p \<le> 0 then [] else [nat (p mod 512)])"
proof (induction n arbitrary: p)
  case 0
  then have "p \<le> 0" by (simp add: range_count_0)
  then have "p div 512 \<le> 0" by simp
  with \<open>p \<le> 0\<close> show ?case by simp
next
  case (Suc n)
  have pos: "0 < p"
  proof (rule ccontr)
    assume "\<not> 0 < p"
    then have "range_count p 512 = 0" by (simp add: range_count_def)
    with Suc.prems(2) show False by simp
  qed
  with Suc.prems have n: "n = range_count (p - 512) 512"
    by (simp add: range_count_step)
  have len: "length (bytes_repeat pd (min 512 p)) div 2 = nat (min 512 p)"
    using Suc.prems(1) by (simp add: length_bytes_repeat)
  show ?case
  proof (cases "p \<le> 512")
    case True
    with pos n have n0: "n = 0" by (simp add: range_count_def)
    show ?thesis
    proof (cases "p = 512")
      case True
      with n0 len show ?thesis by simp
    next
      case False
      with True pos have "p div 512 = 0" "p mod 512 = p" by simp_all
      with n0 len True pos show ?thesis by (simp add: min_def)
    qed
  next
    case False
    then have "0 \<le> (p - 512) div 512" by simp
    then have d: "nat (p div 512) = Suc (nat ((p - 512) div 512))"
      using div512_step [of p] by (simp add: nat_add_distrib)
    from False have mn: "min 512 p = 512" by simp
    from False Suc.IH [OF Suc.prems(1) n] len show ?thesis
      by (simp add: d mod512_step mn)
  qed
qed

lemma chunk_pixels_fill_rect:
  "chunk_pixels (fill_rect d x y w h color) =
     replicate (nat (w * h div 512)) 512 @
     (if w * h mod 512 = 0 \<or> w * h \<le> 0 then [] else [nat (w * h mod 512)])"
  by (simp add: fill_rect_def Let_def chunk_pixels_fill_loop length_pack_H)

lemma windows_fill_rect:
  "windows (fill_rect d x y w h color) =
     [(x, y, min (x + w - 1) (width d - 1), min (y + h - 1) (height d - 1))]"
  by (simp add: fill_rect_def Let_def windows_fill_loop)

lemma chunk_list_props:
  fixes p :: int
  assumes "0 < p"
  defines "ks \<equiv> replicate (nat (p div 512)) (512::nat) @
                  (if p mod 512 = 0 \<or> p \<le> 0 then [] else [nat (p mod 512)])"
  shows "int (length ks) = (p + 511) div 512"
    and "\<forall>k \<in> set ks. 0 < k \<and> k \<le> 512"
    and "int (sum_list ks) = p"
proof -
  define q where "q = p div 512"
  define r where "r = p mod 512"
  have q: "0 \<le> q" using assms(1) by (simp add: q_def)
  have m: "0 \<le> r" "r < 512" by (simp_all add: r_def)
  have e: "p = 512 * q + r" by (simp add: q_def r_def)
  have ks: "ks = replicate (nat q) 512 @ (if r = 0 then [] else [nat r])"
    using assms(1) by (simp add: ks_def q_def r_def)
  show "int (length ks) = (p + 511) div 512"
  proof (cases "r = 0")
    case True
    have "(p + 511) div 512 = q"
      by (rule int_div_pos_eq [where r = 511]) (simp_all add: e True)
    with True q show ?thesis by (simp add: ks)
  next
    case False
    have "(p + 511) div 512 = q + 1"
      by (rule int_div_pos_eq [where r = "r - 1"]) (use False m in \<open>simp_all add: e\<close>)
    with False q show ?thesis by (simp add: ks)
  qed
  show "\<forall>k \<in> set ks. 0 < k \<and> k \<le> 512"
    using m by (auto simp: ks)
  show "int (sum_list ks) = p"
    using q m by (simp add: ks sum_list_replicate e)
qed

lemma be16_pack_H: "be16 (pack_H v) = v mod 65536"
proof -
  have "v mod (256 * 256) = 256 * (v div 256 mod 256) + v mod 256"
    by (rule zmod_zmult2_eq) simp
  then show ?thesis
    by (simp add: pack_H_def uint_word_of_int take_bit_eq_mod)
qed

subsection \<open>Claims about \<^verbatim>\<open>fill_rect\<close>\<close>

text \<open>
  Claim C3. For a rectangle with positive width and height that lies fully inside the
  canvas, \<^verbatim>\<open>fill_rect\<close> issues exactly one \<^verbatim>\<open>set_window\<close> call, with the bounds
  \<open>(x, y, x + w - 1, y + h - 1)\<close>, and streams the pixels in exactly \<open>\<lceil>w * h / 512\<rceil>\<close>
  transfers, each of at least one and at most 512 pixels, whose sizes add up to \<open>w * h\<close>.
\<close>

theorem fill_rect_inside_canvas:
  assumes "0 < w" and "0 < h" and "0 \<le> x" and "0 \<le> y"
    and "x + w \<le> width d" and "y + h \<le> height d"
  shows "windows (fill_rect d x y w h color) = [(x, y, x + w - 1, y + h - 1)] \<and>
         int (length (chunk_pixels (fill_rect d x y w h color))) = (w * h + 511) div 512 \<and>
         (\<forall>k \<in> set (chunk_pixels (fill_rect d x y w h color)). 0 < k \<and> k \<le> 512) \<and>
         int (sum_list (chunk_pixels (fill_rect d x y w h color))) = w * h"
proof -
  from assms have p: "0 < w * h" by simp
  have 1: "windows (fill_rect d x y w h color) = [(x, y, x + w - 1, y + h - 1)]"
    using assms by (simp add: windows_fill_rect min_def)
  note c = chunk_list_props [OF p, folded chunk_pixels_fill_rect [of d x y w h color]]
  from 1 c show ?thesis by blast
qed

text \<open>The hypotheses of C3 hold for a 30 by 40 rectangle at (10, 20) on a 240 by 320 canvas.\<close>

theorem fill_rect_inside_canvas_witness:
  "windows (fill_rect (fst (ST7789_init 240 320 True True True True 0)) 10 20 30 40 BLACK)
     = [(10, 20, 39, 59)] \<and>
   int (length (chunk_pixels
     (fill_rect (fst (ST7789_init 240 320 True True True True 0)) 10 20 30 40 BLACK))) = 3 \<and>
   int (sum_list (chunk_pixels
     (fill_rect (fst (ST7789_init 240 320 True True True True 0)) 10 20 30 40 BLACK))) = 1200"
  using fill_rect_inside_canvas
    [of 30 40 10 20 "fst (ST7789_init 240 320 True True True True 0)" BLACK]
  by (simp add: ST7789_init_def Let_def)

text \<open>
  Claim C8, as the code has it. On a 240 by 320 canvas \<^verbatim>\<open>fill_rect(0, 0, 240, 320, BLACK)\<close>
  streams 76800 pixels in exactly 150 transfers, and every one of them is a full chunk of
  512 pixels, since \<open>150 * 512 = 76800\<close>.
\<close>

theorem fill_full_screen_chunks:
  "chunk_pixels (fill_rect (fst (ST7789_init 240 320 rst dc cs bl rot)) 0 0 240 320 BLACK)
     = replicate 150 512"
  by (simp add: chunk_pixels_fill_rect)

text \<open>
  Claim C8 as stated fails: there are not 149 full chunks and one chunk of 256 pixels
  among the 150 transfers.
\<close>

theorem fill_full_screen_no_short_chunk:
  "\<not> (length (chunk_pixels
          (fill_rect (fst (ST7789_init 240 320 True True True True 0)) 0 0 240 320 BLACK)) = 150 \<and>
       count_list (chunk_pixels
          (fill_rect (fst (ST7789_init 240 320 True True True True 0)) 0 0 240 320 BLACK)) 512 = 149 \<and>
       count_list (chunk_pixels
          (fill_rect (fst (ST7789_init 240 320 True True True True 0)) 0 0 240 320 BLACK)) 256 = 1)"
proof -
  have "chunk_pixels
          (fill_rect (fst (ST7789_init 240 320 True True True True 0)) 0 0 240 320 BLACK)
        = replicate 150 512"
    by (simp add: chunk_pixels_fill_rect)
  moreover have "count_list (replicate 150 (512::nat)) 256 = 0"
    by (simp add: count_list_0_iff)
  ultimately show ?thesis by simp
qed

text \<open>
  Claim C2 against the code. On a 240 by 320 canvas, a 20 by 1 rectangle at (230, 0) has only
  10 pixels on the canvas, and the window is cut to them, but 20 pixels are streamed; a
  10 by 10 rectangle at (300, 0) lies fully outside the canvas, yet a window is set (with
  its right bound left of its left bound) and 100 pixels are streamed in one transfer.
  Only the upper bounds are clipped; the pixel count is the unclipped \<open>w * h\<close>.
\<close>

theorem fill_rect_outside_canvas_unclipped:
  "windows (fill_rect (fst (ST7789_init 240 320 True True True True 0)) 230 0 20 1 BLACK)
     = [(230, 0, 239, 0)] \<and>
   chunk_pixels (fill_rect (fst (ST7789_init 240 320 True True True True 0)) 230 0 20 1 BLACK)
     = [20] \<and>
   windows (fill_rect (fst (ST7789_init 240 320 True True True True 0)) 300 0 10 10 BLACK)
     = [(300, 0, 239, 9)] \<and>
   chunk_pixels (fill_rect (fst (ST7789_init 240 320 True True True True 0)) 300 0 10 10 BLACK)
     = [100]"
  by (simp add: chunk_pixels_fill_rect windows_fill_rect ST7789_init_def Let_def)

subsection \<open>Claims about \<^verbatim>\<open>set_window\<close>, \<^verbatim>\<open>_get_madctl\<close> and \<^verbatim>\<open>reset\<close>\<close>

lemma spi_payloads_append: "spi_payloads (xs @ ys) = spi_payloads xs @ spi_payloads ys"
  by (induction xs rule: spi_payloads.induct) simp_all

lemma spi_payloads_write_data: "spi_payloads (write_data d bs) = [bs]"
  by (simp add: write_data_def)

lemma spi_payloads_write_command:
  "spi_payloads (write_command d c data) = [c] # (case data of None \<Rightarrow> [] | Some bs \<Rightarrow> [bs])"
  by (simp add: write_command_def spi_payloads_append spi_payloads_write_data split: option.split)

lemma spi_payloads_set_window:
  "spi_payloads (set_window d x0 y0 x1 y1) =
     (if rotation d = 1 \<or> rotation d = 3
      then [[CASET], pack_HH y0 y1, [RASET], pack_HH x0 x1, [RAMWR]]
      else [[CASET], pack_HH x0 x1, [RASET], pack_HH y0 y1, [RAMWR]])"
  by (simp add: set_window_def spi_payloads_append spi_payloads_write_command)

lemma pack_HH_decode:
  "length (pack_HH a b) = 4 \<and> be16 (take 2 (pack_HH a b)) = a mod 65536 \<and>
   be16 (drop 2 (pack_HH a b)) = b mod 65536"
  using be16_pack_H [of a] be16_pack_H [of b] by (simp add: pack_HH_def pack_H_def)

text \<open>
  Claim C6. For every rotation selector in \<open>{0, 1, 2, 3}\<close>, \<^verbatim>\<open>set_window\<close> sends the
  column-address opcode followed by four bytes and the row-address opcode followed by four
  bytes (then the memory-write opcode); each four-byte payload is a big-endian pair of
  16-bit bounds; the payloads carry the y bounds in the column register and the x bounds in
  the row register exactly when the rotation is 1 or 3, and the x bounds in the column
  register otherwise; the orientation byte is the entry of the four distinct patterns
  \<open>0x00, 0x60, 0xC0, 0xA0\<close> selected by the rotation.
\<close>

theorem set_window_registers:
  assumes "rotation d \<in> {0, 1, 2, 3}"
  shows "\<exists>col row.
           spi_payloads (set_window d x0 y0 x1 y1) = [[CASET], col, [RASET], row, [RAMWR]] \<and>
           length col = 4 \<and> length row = 4 \<and>
           (be16 (take 2 col), be16 (drop 2 col), be16 (take 2 row), be16 (drop 2 row)) =
             (if rotation d \<in> {1, 3}
              then (y0 mod 65536, y1 mod 65536, x0 mod 65536, x1 mod 65536)
              else (x0 mod 65536, x1 mod 65536, y0 mod 65536, y1 mod 65536)) \<and>
           get_madctl d = [0x00, 0x60, 0xC0, 0xA0] ! nat (rotation d) \<and>
           distinct [0x00, 0x60, 0xC0, 0xA0 :: byte]"
proof (cases "rotation d = 1 \<or> rotation d = 3")
  case True
  have m: "get_madctl d = [0x00, 0x60, 0xC0, 0xA0] ! nat (rotation d)"
    using True by (auto simp: get_madctl_def)
  show ?thesis
    apply (rule exI [of _ "pack_HH y0 y1"], rule exI [of _ "pack_HH x0 x1"])
    using True m pack_HH_decode [of y0 y1] pack_HH_decode [of x0 x1]
    by (auto simp: spi_payloads_set_window)
next
  case False
  with assms have r: "rotation d = 0 \<or> rotation d = 2" by auto
  have m: "get_madctl d = [0x00, 0x60, 0xC0, 0xA0] ! nat (rotation d)"
    using r by (auto simp: get_madctl_def)
  show ?thesis
    apply (rule exI [of _ "pack_HH x0 x1"], rule exI [of _ "pack_HH y0 y1"])
    using False r m pack_HH_decode [of y0 y1] pack_HH_decode [of x0 x1]
    by (auto simp: spi_payloads_set_window)
qed

text \<open>
  The hypothesis of C6 holds for a driver built with rotation 1: the window (1, 2, 300, 4)
  is sent with its axes swapped.
\<close>

theorem set_window_registers_witness:
  "spi_payloads (set_window (fst (ST7789_init 240 320 True True True True 1)) 1 2 300 4)
     = [[0x2A], [0, 2, 0, 4], [0x2B], [0, 1, 1, 44], [0x2C]] \<and>
   get_madctl (fst (ST7789_init 240 320 True True True True 1)) = 0x60"
proof -
  have r: "rotation (fst (ST7789_init 240 320 True True True True 1)) \<in> {0, 1, 2, 3}"
    by (simp add: ST7789_init_def Let_def)
  from set_window_registers [OF r, of 1 2 300 4]
  have "get_madctl (fst (ST7789_init 240 320 True True True True 1)) = 0x60"
    by (auto simp: ST7789_init_def Let_def)
  moreover
  have "spi_payloads (set_window (fst (ST7789_init 240 320 True True True True 1)) 1 2 300 4)
     = [[0x2A], [0, 2, 0, 4], [0x2B], [0, 1, 1, 44], [0x2C]]"
    by (simp add: spi_payloads_set_window ST7789_init_def Let_def pack_HH_def pack_H_def
        CASET_def RASET_def RAMWR_def)
  ultimately show ?thesis by simp
qed

text \<open>
  Claim C7, as the code has it. When a reset line is configured, \<^verbatim>\<open>reset()\<close> drives the
  line high and waits 100 ms, drives it low and waits 100 ms, then drives it high again and
  waits 200 ms, in that order; without a reset line it performs no line transition and no
  delay.
\<close>

theorem reset_pulse_sequence:
  "(reset_pin d \<longrightarrow>
      reset d = [PinWrite RST True, SleepMs 100, PinWrite RST False, SleepMs 100,
                 PinWrite RST True, SleepMs 200] \<and>
      phases (reset d) = [(True, 100), (False, 100), (True, 200)]) \<and>
   (\<not> reset_pin d \<longrightarrow> reset d = [])"
  by (simp add: reset_def)

text \<open>
  Both cases of C7 at concrete drivers, one built with a reset line and one without.
\<close>

theorem reset_pulse_sequence_witness:
  "phases (reset (fst (ST7789_init 240 320 True True True True 0)))
     = [(True, 100), (False, 100), (True, 200)] \<and>
   reset (fst (ST7789_init 240 320 False True True True 0)) = []"
  using reset_pulse_sequence [of "fst (ST7789_init 240 320 True True True True 0)"]
        reset_pulse_sequence [of "fst (ST7789_init 240 320 False True True True 0)"]
  by (simp add: ST7789_init_def Let_def)

text \<open>
  Claim C7 as stated fails: the pulse does not begin with the line held low. Its first
  phase holds the line high, the low phase comes second.
\<close>

theorem reset_not_low_first:
  "\<not> spec_reset_sequence (phases (reset (fst (ST7789_init 240 320 True True True True 0))))"
  by (simp add: spec_reset_sequence_def reset_def ST7789_init_def Let_def)


section \<open>Properties of the joystick driver\<close>

subsection \<open>Claims about \<^verbatim>\<open>is_button_clicked_once\<close> and \<^verbatim>\<open>get_direction\<close>\<close>

text \<open>
  Claim C10. On a freshly constructed joystick, whatever the constructor arguments, the
  clock and the button level, the first call of \<^verbatim>\<open>is_button_clicked_once\<close> raises
  \<^verbatim>\<open>AttributeError\<close>: both branches read \<^verbatim>\<open>_button_was_pressed_for_click\<close>, which
  nothing has assigned yet. (\<^verbatim>\<open>check_for_single_click\<close> reads only attributes that the
  class body or the constructor assigns, so its model has no error result at all.)
\<close>

theorem fresh_joystick_clicked_once_raises:
  "is_button_clicked_once (Joystick_init xc yc thr debounce click_threshold button_value t1 t2)
     current_time raw_button_state = Inl AttributeError"
  by (simp add: is_button_clicked_once_def is_button_down_def Joystick_init_def Let_def)

lemma current_direction_last_direction [simp]:
  "current_direction (j\<lparr>last_direction := d\<rparr>) x y = current_direction j x y"
  by (simp add: current_direction_def)

lemma get_direction_edge:
  "get_direction j x y t False =
     (if current_direction j x y \<noteq> last_direction j
      then (current_direction j x y, j\<lparr>last_direction := current_direction j x y\<rparr>)
      else (Center, j))"
  by (simp add: get_direction_def Let_def)

lemma poll_direction_append:
  "poll_direction j (rs @ rs') =
     (fst (poll_direction j rs) @ fst (poll_direction (snd (poll_direction j rs)) rs'),
      snd (poll_direction (snd (poll_direction j rs)) rs'))"
  by (induction rs arbitrary: j) (auto simp: Let_def split: prod.splits)

lemma poll_direction_held:
  "last_direction j = Right \<Longrightarrow> \<forall>(x, y, t) \<in> set rs. current_direction j x y = Right \<Longrightarrow>
   poll_direction j rs = (replicate (length rs) Center, j)"
  by (induction rs) (auto simp: get_direction_edge)

lemma poll_direction_pushed:
  assumes "last_direction j \<noteq> Right" and "rs \<noteq> []"
    and "\<forall>(x, y, t) \<in> set rs. current_direction j x y = Right"
  shows "poll_direction j rs =
           (Right # replicate (length rs - 1) Center, j\<lparr>last_direction := Right\<rparr>)"
proof (cases rs)
  case Nil
  with assms show ?thesis by simp
next
  case (Cons r rs')
  obtain x y t where r: "r = (x, y, t)" by (cases r)
  from assms(3) Cons r have c: "current_direction j x y = Right"
    and rest: "\<forall>(x, y, t) \<in> set rs'. current_direction (j\<lparr>last_direction := Right\<rparr>) x y = Right"
    by auto
  have "poll_direction (j\<lparr>last_direction := Right\<rparr>) rs' =
          (replicate (length rs') Center, j\<lparr>last_direction := Right\<rparr>)"
    by (rule poll_direction_held) (use rest in simp_all)
  with assms(1) c show ?thesis
    by (simp add: Cons r get_direction_edge)
qed

lemma poll_direction_centered:
  "current_direction j x y = Center \<Longrightarrow>
   poll_direction j [(x, y, t)] = ([Center], j\<lparr>last_direction := Center\<rparr>)"
  by (simp add: get_direction_edge)

text \<open>
  Claim C5. In edge mode (\<^verbatim>\<open>allow_repeat=False\<close>), when the classified direction goes
  from centre to right and stays right, the call returns right exactly once, on the poll
  where the classification changes, and centre on every later poll while the stick is
  held; after the stick has returned to the dead zone and is pushed right again, right is
  returned once more, again on the first poll only.
\<close>

theorem edge_mode_right_reported_once:
  assumes "current_direction j x0 y0 = Center"
    and "held \<noteq> []" and "\<forall>(x, y, t) \<in> set held. current_direction j x y = Right"
    and "current_direction j x1 y1 = Center"
    and "again \<noteq> []" and "\<forall>(x, y, t) \<in> set again. current_direction j x y = Right"
  shows "fst (poll_direction j ((x0, y0, t0) # held @ (x1, y1, t1) # again)) =
           Center # (Right # replicate (length held - 1) Center) @
           Center # (Right # replicate (length again - 1) Center)"
proof -
  let ?jc = "j\<lparr>last_direction := Center\<rparr>" and ?jr = "j\<lparr>last_direction := Right\<rparr>"
  have 1: "poll_direction j [(x0, y0, t0)] = ([Center], ?jc)"
    using assms(1) by (rule poll_direction_centered)
  have 2: "poll_direction ?jc held = (Right # replicate (length held - 1) Center, ?jr)"
    using poll_direction_pushed [of ?jc held] assms(2,3) by simp
  have 3: "poll_direction ?jr [(x1, y1, t1)] = ([Center], ?jc)"
    using poll_direction_centered [of ?jr x1 y1 t1] assms(4) by simp
  have 4: "poll_direction ?jc again = (Right # replicate (length again - 1) Center, ?jr)"
    using poll_direction_pushed [of ?jc again] assms(5,6) by simp
  have "(x0, y0, t0) # held @ (x1, y1, t1) # again =
          [(x0, y0, t0)] @ held @ [(x1, y1, t1)] @ again" by simp
  then show ?thesis
    by (simp only: poll_direction_append 1 2 3 4 fst_conv snd_conv) simp
qed

text \<open>
  The hypotheses of C5 at the default calibration (centre 2048, threshold 800): one poll
  at rest, three polls pushed right, one poll back in the dead zone, two polls pushed
  right again.
\<close>

theorem edge_mode_right_reported_once_witness:
  "fst (poll_direction (Joystick_init 2048 2048 800 50 300 1 0 0)
     [(2048, 2048, 0), (3500, 2048, 20), (3600, 2048, 40), (3600, 2048, 60),
      (2100, 2048, 80), (3500, 2048, 100), (3500, 2048, 120)]) =
   [Center, Right, Center, Center, Center, Right, Center]"
  using edge_mode_right_reported_once
    [of "Joystick_init 2048 2048 800 50 300 1 0 0" 2048 2048
        "[(3500, 2048, 20), (3600, 2048, 40), (3600, 2048, 60)]" 2100 2048
        "[(3500, 2048, 100), (3500, 2048, 120)]" 0 80]
  by (simp add: current_direction_def Joystick_init_def)

subsection \<open>Calibration\<close>

lemma calibrate_loop_closes:
  assumes "\<exists>(t, x, y) \<in> set rs. \<not> ticks_diff t start < limit"
  shows "calibrate_loop start limit rs xs ys n =
           Some (xs + sum_list (map (\<lambda>(t, x, y). x)
                        (takeWhile (\<lambda>(t, x, y). ticks_diff t start < limit) rs)),
                 ys + sum_list (map (\<lambda>(t, x, y). y)
                        (takeWhile (\<lambda>(t, x, y). ticks_diff t start < limit) rs)),
                 n + int (length (takeWhile (\<lambda>(t, x, y). ticks_diff t start < limit) rs)))"
  using assms
proof (induction rs arbitrary: xs ys n)
  case Nil
  then show ?case by simp
next
  case (Cons r rs)
  obtain t x y where r: "r = (t, x, y)" by (cases r)
  show ?case
  proof (cases "ticks_diff t start < limit")
    case True
    with Cons.prems r have "\<exists>(t, x, y) \<in> set rs. \<not> ticks_diff t start < limit" by auto
    from Cons.IH [OF this] True show ?thesis by (simp add: r)
  next
    case False
    then show ?thesis by (simp add: r)
  qed
qed

text \<open>
  Claim C9, as the code has it. Provided the clock leaves the calibration window within
  the readings, \<^verbatim>\<open>calibrate\<close> returns; the samples collected are those read before the
  window closes; when there is at least one, both centre values are overwritten with the
  floor of the average of the samples and nothing else changes; when there is none, the
  failure message is printed and the object is left unchanged. In both cases the method
  returns \<^verbatim>\<open>None\<close>, not a pair: it has no \<^verbatim>\<open>return\<close> statement.
\<close>

theorem calibrate_averages_returns_None:
  assumes "\<exists>(t, x, y) \<in> set readings. \<not> ticks_diff t start < cal * 1000"
  shows "\<exists>j' out.
    calibrate j cal start readings = Some (j', out, PyNone) \<and>
    (let window = takeWhile (\<lambda>(t, x, y). ticks_diff t start < cal * 1000) readings;
         n = int (length window)
     in if 0 < n
        then j' = j\<lparr>x_center := sum_list (map (\<lambda>(t, x, y). x) window) div n,
                      y_center := sum_list (map (\<lambda>(t, x, y). y) window) div n\<rparr> \<and>
             out = [Calibration_start cal, Calibration_done (x_center j') (y_center j')]
        else j' = j \<and> out = [Calibration_start cal, Calibration_failed])"
  by (simp add: calibrate_def calibrate_loop_closes [OF assms] Let_def)

text \<open>
  Two runs of C9: two samples in a one second window, and a zero second window that
  collects no sample.
\<close>

theorem calibrate_averages_returns_None_witness:
  "calibrate (Joystick_init 2048 2048 800 50 300 1 0 0) 1 0
     [(0, 2000, 2100), (10, 2011, 2090), (1000, 0, 0)] =
   Some ((Joystick_init 2048 2048 800 50 300 1 0 0)\<lparr>x_center := 2005, y_center := 2095\<rparr>,
         [Calibration_start 1, Calibration_done 2005 2095], PyNone) \<and>
   calibrate (Joystick_init 2048 2048 800 50 300 1 0 0) 0 0 [(0, 2000, 2100)] =
   Some (Joystick_init 2048 2048 800 50 300 1 0 0,
         [Calibration_start 0, Calibration_failed], PyNone)"
proof -
  have a: "\<exists>(t, x, y) \<in> set [(0, 2000, 2100), (10, 2011, 2090), (1000::int, 0::int, 0::int)].
             \<not> ticks_diff t 0 < 1 * 1000"
    by (simp add: ticks_diff_def)
  have b: "\<exists>(t, x, y) \<in> set [(0::int, 2000::int, 2100::int)]. \<not> ticks_diff t 0 < 0 * 1000"
    by (simp add: ticks_diff_def)
  from calibrate_averages_returns_None [OF a, of "Joystick_init 2048 2048 800 50 300 1 0 0"]
       calibrate_averages_returns_None [OF b, of "Joystick_init 2048 2048 800 50 300 1 0 0"]
  show ?thesis
    by (auto simp: ticks_diff_def Let_def)
qed

text \<open>
  Claim C9 as stated fails: what \<^verbatim>\<open>calibrate\<close> returns is not the pair of the new
  centre values.
\<close>

theorem calibrate_returns_no_pair:
  "snd (snd (the (calibrate (Joystick_init 2048 2048 800 50 300 1 0 0) 1 0
     [(0, 2000, 2100), (10, 2011, 2090), (1000, 0, 0)]))) \<noteq>
   PyTuple
     (x_center (fst (the (calibrate (Joystick_init 2048 2048 800 50 300 1 0 0) 1 0
        [(0, 2000, 2100), (10, 2011, 2090), (1000, 0, 0)]))))
     (y_center (fst (the (calibrate (Joystick_init 2048 2048 800 50 300 1 0 0) 1 0
        [(0, 2000, 2100), (10, 2011, 2090), (1000, 0, 0)]))))"
  by (simp add: calibrate_def ticks_diff_def)

subsection \<open>The click detector \<^verbatim>\<open>check_for_single_click\<close>\<close>

lemma poll_click_append:
  "poll_click j (ps @ qs) =
     (fst (poll_click j ps) @ fst (poll_click (snd (poll_click j ps)) qs),
      snd (poll_click (snd (poll_click j ps)) qs))"
  by (induction ps arbitrary: j) (auto simp: Let_def split: prod.splits)

lemma check_idle_inactive:
  "button_state_for_click j = 0 \<Longrightarrow>
   check_for_single_click j 1 t = (False, j\<lparr>last_button_value_for_click := 1\<rparr>)"
  by (simp add: check_for_single_click_def)

lemma check_pressed_active:
  "button_state_for_click j = 1 \<Longrightarrow>
   check_for_single_click j 0 t = (False, j\<lparr>last_button_value_for_click := 0\<rparr>)"
  by (simp add: check_for_single_click_def)

lemma check_press:
  "button_state_for_click j = 0 \<Longrightarrow> last_button_value_for_click j = 1 \<Longrightarrow>
   debounce_ms j < ticks_diff t (last_button_change_time j) \<Longrightarrow>
   check_for_single_click j 0 t =
     (False, j\<lparr>button_state_for_click := 1, button_down_start_time := t,
               last_button_change_time := t, last_button_value_for_click := 0\<rparr>)"
  by (simp add: check_for_single_click_def)

lemma check_release:
  "button_state_for_click j = 1 \<Longrightarrow>
   debounce_ms j < ticks_diff t (last_button_change_time j) \<Longrightarrow>
   check_for_single_click j 1 t =
     (ticks_diff t (button_down_start_time j) < click_threshold_ms j,
      j\<lparr>button_state_for_click := 0, last_button_change_time := t,
        last_button_value_for_click := 1\<rparr>)"
  by (simp add: check_for_single_click_def)

lemma check_release_ignored:
  "button_state_for_click j = 1 \<Longrightarrow>
   \<not> debounce_ms j < ticks_diff t (last_button_change_time j) \<Longrightarrow>
   check_for_single_click j 1 t = (False, j\<lparr>last_button_value_for_click := 1\<rparr>)"
  by (simp add: check_for_single_click_def)

lemma last_value_same:
  "last_button_value_for_click j = v \<Longrightarrow> j\<lparr>last_button_value_for_click := v\<rparr> = j"
  by (cases j) simp

lemma poll_idle_inactive:
  "button_state_for_click j = 0 \<Longrightarrow> last_button_value_for_click j = 1 \<Longrightarrow>
   poll_click j (map (Pair 1) ts) = (replicate (length ts) False, j)"
  by (induction ts) (simp_all add: check_idle_inactive last_value_same)

lemma poll_pressed_active:
  "button_state_for_click j = 1 \<Longrightarrow> last_button_value_for_click j = 0 \<Longrightarrow>
   poll_click j (map (Pair 0) ts) = (replicate (length ts) False, j)"
  by (induction ts) (simp_all add: check_pressed_active last_value_same)

lemma poll_click_Cons:
  "poll_click j ((v, t) # rs) =
     (fst (check_for_single_click j v t) # fst (poll_click (snd (check_for_single_click j v t)) rs),
      snd (poll_click (snd (check_for_single_click j v t)) rs))"
  by (simp add: Let_def split: prod.splits)

lemma poll_click_one: "poll_click j [(v, t)] = ([fst (check_for_single_click j v t)],
                                               snd (check_for_single_click j v t))"
  by (simp add: Let_def split: prod.splits)

text \<open>One accepted press, held, then released after more than the debounce window.\<close>

lemma click_cycle:
  assumes idle: "button_state_for_click j = 0" "last_button_value_for_click j = 1"
    and accepted: "debounce_ms j < ticks_diff tp (last_button_change_time j)"
    and released: "debounce_ms j < ticks_diff tr tp"
  shows "poll_click j ((0, tp) # map (Pair 0) hs @ (1, tr) # map (Pair 1) rs) =
           (False # replicate (length hs) False @
              (ticks_diff tr tp < click_threshold_ms j) # replicate (length rs) False,
            j\<lparr>button_state_for_click := 0, button_down_start_time := tp,
              last_button_change_time := tr, last_button_value_for_click := 1\<rparr>)"
proof -
  let ?jp = "j\<lparr>button_state_for_click := 1, button_down_start_time := tp,
               last_button_change_time := tp, last_button_value_for_click := 0\<rparr>"
  let ?jr = "j\<lparr>button_state_for_click := 0, button_down_start_time := tp,
               last_button_change_time := tr, last_button_value_for_click := 1\<rparr>"
  have 1: "poll_click j [(0, tp)] = ([False], ?jp)"
    using idle accepted by (simp add: poll_click_one check_press)
  have 2: "poll_click ?jp (map (Pair 0) hs) = (replicate (length hs) False, ?jp)"
    by (rule poll_pressed_active) simp_all
  have 3: "poll_click ?jp [(1, tr)] = ([ticks_diff tr tp < click_threshold_ms j], ?jr)"
    using released by (simp add: poll_click_one check_release)
  have 4: "poll_click ?jr (map (Pair 1) rs) = (replicate (length rs) False, ?jr)"
    by (rule poll_idle_inactive) simp_all
  have "poll_click j ([(0, tp)] @ map (Pair 0) hs @ [(1, tr)] @ map (Pair 1) rs) =
           (False # replicate (length hs) False @
              (ticks_diff tr tp < click_threshold_ms j) # replicate (length rs) False, ?jr)"
    by (simp only: poll_click_append 1 2 3 4 fst_conv snd_conv) simp
  then show ?thesis by simp
qed

lemma clicks_replicate_False [simp]: "clicks (replicate n False) = 0"
  by (simp add: clicks_def)

lemma clicks_append [simp]: "clicks (xs @ ys) = clicks xs + clicks ys"
  by (simp add: clicks_def)

lemma clicks_Cons [simp]: "clicks (c # cs) = (if c then 1 else 0) + clicks cs"
  by (simp add: clicks_def)

lemma clicks_Nil [simp]: "clicks [] = 0"
  by (simp add: clicks_def)

text \<open>Single steps of the machine that the runs below are built from.\<close>

lemma check_preserves:
  "debounce_ms (snd (check_for_single_click j v t)) = debounce_ms j"
  by (simp add: check_for_single_click_def Let_def split: prod.splits)

lemma check_clicked:
  "fst (check_for_single_click j v t) \<Longrightarrow>
   button_state_for_click (snd (check_for_single_click j v t)) = 0 \<and>
   last_button_change_time (snd (check_for_single_click j v t)) = t"
  by (simp add: check_for_single_click_def Let_def split: if_splits)

lemma check_idle_in_window:
  "button_state_for_click j = 0 \<Longrightarrow>
   \<not> debounce_ms j < ticks_diff t (last_button_change_time j) \<Longrightarrow>
   check_for_single_click j v t = (False, j\<lparr>last_button_value_for_click := v\<rparr>)"
  by (simp add: check_for_single_click_def)

text \<open>A hold at least as long as the click ceiling is never reported.\<close>

lemma check_inactive_long_hold:
  assumes "button_state_for_click j = 0 \<or> button_state_for_click j = 1"
    and "click_threshold_ms j \<le> ticks_diff t (button_down_start_time j)"
  shows "\<not> fst (check_for_single_click j 1 t)"
    and "button_state_for_click (snd (check_for_single_click j 1 t)) = 0 \<or>
         button_state_for_click (snd (check_for_single_click j 1 t)) = 1"
    and "button_down_start_time (snd (check_for_single_click j 1 t)) = button_down_start_time j"
    and "click_threshold_ms (snd (check_for_single_click j 1 t)) = click_threshold_ms j"
  using assms by (auto simp: check_for_single_click_def)

lemma long_hold_no_click:
  "button_state_for_click j = 0 \<or> button_state_for_click j = 1 \<Longrightarrow>
   \<forall>t \<in> set rs. click_threshold_ms j \<le> ticks_diff t (button_down_start_time j) \<Longrightarrow>
   clicks (fst (poll_click j (map (Pair 1) rs))) = 0"
proof (induction rs arbitrary: j)
  case Nil
  then show ?case by simp
next
  case (Cons t rs)
  let ?j1 = "snd (check_for_single_click j 1 t)"
  from Cons.prems have h: "click_threshold_ms j \<le> ticks_diff t (button_down_start_time j)"
    by simp
  note p = check_inactive_long_hold [OF Cons.prems(1) h]
  have "clicks (fst (poll_click ?j1 (map (Pair 1) rs))) = 0"
    by (rule Cons.IH) (use p Cons.prems(2) in simp_all)
  with p(1) show ?case by (simp add: poll_click_Cons del: poll_click.simps)
qed

lemma release_returns_idle:
  "button_state_for_click j = 1 \<Longrightarrow>
   \<exists>t \<in> set rs. debounce_ms j < ticks_diff t (last_button_change_time j) \<Longrightarrow>
   button_state_for_click (snd (poll_click j (map (Pair 1) rs))) = 0"
proof (induction rs arbitrary: j)
  case Nil
  then show ?case by simp
next
  case (Cons t rs)
  show ?case
  proof (cases "debounce_ms j < ticks_diff t (last_button_change_time j)")
    case True
    let ?j1 = "j\<lparr>button_state_for_click := 0, last_button_change_time := t,
                  last_button_value_for_click := 1\<rparr>"
    from Cons.prems(1) True have c: "snd (check_for_single_click j 1 t) = ?j1"
      by (simp add: check_release)
    have "poll_click ?j1 (map (Pair 1) rs) = (replicate (length rs) False, ?j1)"
      by (rule poll_idle_inactive) simp_all
    with c show ?thesis by (simp add: poll_click_Cons del: poll_click.simps)
  next
    case False
    let ?j1 = "j\<lparr>last_button_value_for_click := 1\<rparr>"
    from Cons.prems(1) False have c: "snd (check_for_single_click j 1 t) = ?j1"
      by (simp add: check_release_ignored)
    from Cons.prems(2) False
    have "\<exists>t \<in> set rs. debounce_ms ?j1 < ticks_diff t (last_button_change_time ?j1)" by auto
    with Cons.prems(1) have "button_state_for_click (snd (poll_click ?j1 (map (Pair 1) rs))) = 0"
      by (intro Cons.IH) simp_all
    with c show ?thesis by (simp add: poll_click_Cons del: poll_click.simps)
  qed
qed

lemma long_hold_cycle:
  assumes idle: "button_state_for_click j = 0" "last_button_value_for_click j = 1"
    and accepted: "debounce_ms j < ticks_diff tp (last_button_change_time j)"
    and long: "\<forall>t \<in> set rs. click_threshold_ms j \<le> ticks_diff t tp"
    and later: "\<exists>t \<in> set rs. debounce_ms j < ticks_diff t tp"
  shows "clicks (fst (poll_click j ((0, tp) # map (Pair 0) hs @ map (Pair 1) rs))) = 0"
    and "button_state_for_click
           (snd (poll_click j ((0, tp) # map (Pair 0) hs @ map (Pair 1) rs))) = 0"
proof -
  let ?jp = "j\<lparr>button_state_for_click := 1, button_down_start_time := tp,
               last_button_change_time := tp, last_button_value_for_click := 0\<rparr>"
  have 1: "poll_click j [(0, tp)] = ([False], ?jp)"
    using idle accepted by (simp add: poll_click_one check_press)
  have 2: "poll_click ?jp (map (Pair 0) hs) = (replicate (length hs) False, ?jp)"
    by (rule poll_pressed_active) simp_all
  have 3: "clicks (fst (poll_click ?jp (map (Pair 1) rs))) = 0"
    by (rule long_hold_no_click) (use long in simp_all)
  have 4: "button_state_for_click (snd (poll_click ?jp (map (Pair 1) rs))) = 0"
    by (rule release_returns_idle) (use later in simp_all)
  have e: "poll_click j ([(0, tp)] @ map (Pair 0) hs @ map (Pair 1) rs) =
           (False # replicate (length hs) False @ fst (poll_click ?jp (map (Pair 1) rs)),
            snd (poll_click ?jp (map (Pair 1) rs)))"
    by (simp only: poll_click_append 1 2 fst_conv snd_conv) simp
  from e 3 show "clicks (fst (poll_click j ((0, tp) # map (Pair 0) hs @ map (Pair 1) rs))) = 0"
    by simp
  from e 4 show "button_state_for_click
                   (snd (poll_click j ((0, tp) # map (Pair 0) hs @ map (Pair 1) rs))) = 0"
    by simp
qed


text \<open>A press that is not taken: Idle stays Idle and the whole hold is passed over.\<close>

lemma check_idle_no_click:
  "button_state_for_click j = 0 \<Longrightarrow> \<not> fst (check_for_single_click j v t)"
  by (simp add: check_for_single_click_def)

lemma check_idle_next:
  "button_state_for_click j = 0 \<Longrightarrow>
   button_state_for_click (snd (check_for_single_click j v t)) = 0 \<or>
   (v = 0 \<and> button_state_for_click (snd (check_for_single_click j v t)) = 1 \<and>
    last_button_value_for_click (snd (check_for_single_click j v t)) = 0)"
  by (simp add: check_for_single_click_def)

lemma check_press_not_taken:
  "button_state_for_click j = 0 \<Longrightarrow>
   \<not> (last_button_value_for_click j = 1 \<and>
      debounce_ms j < ticks_diff t (last_button_change_time j)) \<Longrightarrow>
   check_for_single_click j 0 t = (False, j\<lparr>last_button_value_for_click := 0\<rparr>)"
  by (auto simp add: check_for_single_click_def)

lemma poll_idle_active_seen:
  "button_state_for_click j = 0 \<Longrightarrow> last_button_value_for_click j = 0 \<Longrightarrow>
   poll_click j (map (Pair 0) ts) = (replicate (length ts) False, j)"
  by (induction ts) (simp_all add: check_press_not_taken last_value_same)

lemma poll_idle_inactive_any:
  "button_state_for_click j = 0 \<Longrightarrow>
   fst (poll_click j (map (Pair 1) ts)) = replicate (length ts) False \<and>
   button_state_for_click (snd (poll_click j (map (Pair 1) ts))) = 0"
proof (induction ts arbitrary: j)
  case Nil
  then show ?case by simp
next
  case (Cons t ts)
  let ?j1 = "j\<lparr>last_button_value_for_click := 1\<rparr>"
  from Cons.prems have c: "check_for_single_click j 1 t = (False, ?j1)"
    by (rule check_idle_inactive)
  have "fst (poll_click ?j1 (map (Pair 1) ts)) = replicate (length ts) False \<and>
        button_state_for_click (snd (poll_click ?j1 (map (Pair 1) ts))) = 0"
    by (rule Cons.IH) (use Cons.prems in simp)
  with c show ?case by (simp add: poll_click_Cons del: poll_click.simps)
qed

lemma dropped_hold:
  assumes idle: "button_state_for_click j = 0"
    and not_taken: "\<not> (last_button_value_for_click j = 1 \<and>
                       debounce_ms j < ticks_diff tp (last_button_change_time j))"
  shows "fst (poll_click j ((0, tp) # map (Pair 0) hs @ map (Pair 1) rs)) =
           replicate (Suc (length hs) + length rs) False"
    and "button_state_for_click
           (snd (poll_click j ((0, tp) # map (Pair 0) hs @ map (Pair 1) rs))) = 0"
proof -
  let ?j0 = "j\<lparr>last_button_value_for_click := 0\<rparr>"
  have 1: "poll_click j [(0, tp)] = ([False], ?j0)"
    using idle not_taken by (simp add: poll_click_one check_press_not_taken)
  have 2: "poll_click ?j0 (map (Pair 0) hs) = (replicate (length hs) False, ?j0)"
    by (rule poll_idle_active_seen) (use idle in simp_all)
  have 3: "fst (poll_click ?j0 (map (Pair 1) rs)) = replicate (length rs) False \<and>
           button_state_for_click (snd (poll_click ?j0 (map (Pair 1) rs))) = 0"
    by (rule poll_idle_inactive_any) (use idle in simp)
  have e: "poll_click j ([(0, tp)] @ map (Pair 0) hs @ map (Pair 1) rs) =
           (False # replicate (length hs) False @ fst (poll_click ?j0 (map (Pair 1) rs)),
            snd (poll_click ?j0 (map (Pair 1) rs)))"
    by (simp only: poll_click_append 1 2 fst_conv snd_conv) simp
  from e 3 show "fst (poll_click j ((0, tp) # map (Pair 0) hs @ map (Pair 1) rs)) =
           replicate (Suc (length hs) + length rs) False"
    by (simp add: replicate_add)
  from e 3 show "button_state_for_click
           (snd (poll_click j ((0, tp) # map (Pair 0) hs @ map (Pair 1) rs))) = 0"
    by simp
qed

text \<open>A settled signal: polls that all read the same value.\<close>

lemma idle_settled_no_click:
  "button_state_for_click j = 0 \<Longrightarrow> clicks (fst (poll_click j (map (Pair v) ts))) = 0"
proof (induction ts arbitrary: j)
  case Nil
  then show ?case by simp
next
  case (Cons t ts)
  let ?j1 = "snd (check_for_single_click j v t)"
  have c: "\<not> fst (check_for_single_click j v t)"
    using Cons.prems by (rule check_idle_no_click)
  have "clicks (fst (poll_click ?j1 (map (Pair v) ts))) = 0"
  proof (cases "button_state_for_click ?j1 = 0")
    case True
    then show ?thesis by (rule Cons.IH)
  next
    case False
    with check_idle_next [OF Cons.prems, of v t]
    have v: "v = 0" and s: "button_state_for_click ?j1 = 1"
      and l: "last_button_value_for_click ?j1 = 0" by auto
    from poll_pressed_active [OF s l, of ts] v show ?thesis by simp
  qed
  with c show ?case by (simp add: poll_click_Cons del: poll_click.simps)
qed

lemma settled_at_most_one_click:
  "clicks (fst (poll_click j (map (Pair v) ts))) \<le> 1"
proof (induction ts arbitrary: j)
  case Nil
  then show ?case by simp
next
  case (Cons t ts)
  obtain c j1 where c: "check_for_single_click j v t = (c, j1)"
    by (cases "check_for_single_click j v t")
  show ?case
  proof (cases c)
    case True
    with check_clicked [of j v t] c have "button_state_for_click j1 = 0" by simp
    then have "clicks (fst (poll_click j1 (map (Pair v) ts))) = 0"
      by (rule idle_settled_no_click)
    with c True show ?thesis by (simp add: poll_click_Cons del: poll_click.simps)
  next
    case False
    have "clicks (fst (poll_click j1 (map (Pair v) ts))) \<le> 1" by (rule Cons.IH)
    with c False show ?thesis by (simp add: poll_click_Cons del: poll_click.simps)
  qed
qed

text \<open>
  Polls inside the debounce window after the last transition leave Idle alone, and the
  settled signal that follows them is then read from Idle.
\<close>

lemma idle_in_window_then_settled_no_click:
  "button_state_for_click j = 0 \<Longrightarrow>
   \<forall>(v, t) \<in> set ps. \<not> debounce_ms j < ticks_diff t (last_button_change_time j) \<Longrightarrow>
   clicks (fst (poll_click j (ps @ map (Pair w) ts))) = 0"
proof (induction ps arbitrary: j)
  case Nil
  then show ?case by (simp add: idle_settled_no_click)
next
  case (Cons p ps)
  obtain v t where p: "p = (v, t)" by (cases p)
  let ?j1 = "j\<lparr>last_button_value_for_click := v\<rparr>"
  from Cons.prems p have c: "check_for_single_click j v t = (False, ?j1)"
    by (simp add: check_idle_in_window)
  have "clicks (fst (poll_click ?j1 (ps @ map (Pair w) ts))) = 0"
    by (rule Cons.IH) (use Cons.prems in auto)
  with c show ?case by (simp add: p poll_click_Cons del: poll_click.simps)
qed

lemma burst_then_settled_at_most_one_click:
  "\<forall>(v, t) \<in> set ps. lo \<le> t \<and> t \<le> lo + debounce_ms j \<Longrightarrow>
   clicks (fst (poll_click j (ps @ map (Pair w) ts))) \<le> 1"
proof (induction ps arbitrary: j)
  case Nil
  show ?case using settled_at_most_one_click [of j w ts] by simp
next
  case (Cons p ps)
  obtain v t where p: "p = (v, t)" by (cases p)
  obtain c j1 where c: "check_for_single_click j v t = (c, j1)"
    by (cases "check_for_single_click j v t")
  have d: "debounce_ms j1 = debounce_ms j"
    using check_preserves [of j v t] c by simp
  from Cons.prems p have t: "lo \<le> t"
    and rest: "\<forall>(v, t) \<in> set ps. lo \<le> t \<and> t \<le> lo + debounce_ms j" by auto
  show ?case
  proof (cases c)
    case True
    with check_clicked [of j v t] c
    have s: "button_state_for_click j1 = 0" "last_button_change_time j1 = t" by simp_all
    have "clicks (fst (poll_click j1 (ps @ map (Pair w) ts))) = 0"
      by (rule idle_in_window_then_settled_no_click)
         (use s d t rest in \<open>auto simp: ticks_diff_def\<close>)
    with c True show ?thesis by (simp add: p poll_click_Cons del: poll_click.simps)
  next
    case False
    have "clicks (fst (poll_click j1 (ps @ map (Pair w) ts))) \<le> 1"
      by (rule Cons.IH) (use rest d in simp)
    with c False show ?thesis by (simp add: p poll_click_Cons del: poll_click.simps)
  qed
qed

text \<open>A hold of at least the click ceiling, whether or not its press is taken.\<close>

lemma long_hold_any_press:
  assumes idle: "button_state_for_click j = 0"
    and long: "\<forall>t \<in> set rs. click_threshold_ms j \<le> ticks_diff t tp"
    and later: "\<exists>t \<in> set rs. debounce_ms j < ticks_diff t tp"
  shows "clicks (fst (poll_click j ((0, tp) # map (Pair 0) hs @ map (Pair 1) rs))) = 0"
    and "button_state_for_click
           (snd (poll_click j ((0, tp) # map (Pair 0) hs @ map (Pair 1) rs))) = 0"
proof -
  have "clicks (fst (poll_click j ((0, tp) # map (Pair 0) hs @ map (Pair 1) rs))) = 0 \<and>
        button_state_for_click
           (snd (poll_click j ((0, tp) # map (Pair 0) hs @ map (Pair 1) rs))) = 0"
  proof (cases "last_button_value_for_click j = 1 \<and>
                debounce_ms j < ticks_diff tp (last_button_change_time j)")
    case True
    with idle long later show ?thesis
      using long_hold_cycle [of j tp rs hs] by simp
  next
    case False
    with idle show ?thesis
      using dropped_hold [of j tp hs rs] by simp
  qed
  then show "clicks (fst (poll_click j ((0, tp) # map (Pair 0) hs @ map (Pair 1) rs))) = 0"
    and "button_state_for_click
           (snd (poll_click j ((0, tp) # map (Pair 0) hs @ map (Pair 1) rs))) = 0"
    by simp_all
qed

text \<open>
  Claim C4, as the code has it. The machine is in Idle and is polled with a signal that
  goes active at \<open>tp\<close>, stays active, and goes back inactive.
  \<^item> If the signal was inactive at the last poll, the press poll comes more than the
    debounce window after the last recorded transition (the guard of
    \<^verbatim>\<open>check_for_single_click\<close> on the way from Idle to Pressed), and the first inactive
    poll comes more than the debounce window and less than the click ceiling after the
    press, then exactly one click is reported, on that release poll, and the machine is
    back in Idle.
  \<^item> If every inactive poll comes at least the click ceiling after the press, and one of
    them more than the debounce window after it, no click is reported and the machine
    ends in Idle, whether the press was taken or not.
  \<^item> From any state, when all changes of the signal are polled within one debounce
    window and the signal then stays at one value \<open>w\<close>, the whole run, the later polls
    included, reports at most one click.
\<close>

theorem click_detector:
  "(button_state_for_click j = 0 \<and> last_button_value_for_click j = 1 \<and>
    debounce_ms j < ticks_diff tp (last_button_change_time j) \<and>
    debounce_ms j < ticks_diff tr tp \<and> ticks_diff tr tp < click_threshold_ms j \<longrightarrow>
      fst (poll_click j ((0, tp) # map (Pair 0) hs @ (1, tr) # map (Pair 1) rs)) =
        replicate (Suc (length hs)) False @ True # replicate (length rs) False \<and>
      button_state_for_click
        (snd (poll_click j ((0, tp) # map (Pair 0) hs @ (1, tr) # map (Pair 1) rs))) = 0) \<and>
   (button_state_for_click j = 0 \<and>
    (\<forall>t \<in> set rs'. click_threshold_ms j \<le> ticks_diff t tp) \<and>
    (\<exists>t \<in> set rs'. debounce_ms j < ticks_diff t tp) \<longrightarrow>
      clicks (fst (poll_click j ((0, tp) # map (Pair 0) hs @ map (Pair 1) rs'))) = 0 \<and>
      button_state_for_click
        (snd (poll_click j ((0, tp) # map (Pair 0) hs @ map (Pair 1) rs'))) = 0) \<and>
   ((\<forall>(v, t) \<in> set ps. lo \<le> t \<and> t \<le> lo + debounce_ms j') \<longrightarrow>
      clicks (fst (poll_click j' (ps @ map (Pair w) ts))) \<le> 1)"
proof (intro conjI impI)
  assume a: "button_state_for_click j = 0 \<and> last_button_value_for_click j = 1 \<and>
    debounce_ms j < ticks_diff tp (last_button_change_time j) \<and>
    debounce_ms j < ticks_diff tr tp \<and> ticks_diff tr tp < click_threshold_ms j"
  then have c: "poll_click j ((0, tp) # map (Pair 0) hs @ (1, tr) # map (Pair 1) rs) =
           (False # replicate (length hs) False @
              (ticks_diff tr tp < click_threshold_ms j) # replicate (length rs) False,
            j\<lparr>button_state_for_click := 0, button_down_start_time := tp,
              last_button_change_time := tr, last_button_value_for_click := 1\<rparr>)"
    by (intro click_cycle) simp_all
  from a c show "fst (poll_click j ((0, tp) # map (Pair 0) hs @ (1, tr) # map (Pair 1) rs)) =
        replicate (Suc (length hs)) False @ True # replicate (length rs) False"
    by simp
  from c show "button_state_for_click
        (snd (poll_click j ((0, tp) # map (Pair 0) hs @ (1, tr) # map (Pair 1) rs))) = 0"
    by simp
next
  assume a: "button_state_for_click j = 0 \<and>
    (\<forall>t \<in> set rs'. click_threshold_ms j \<le> ticks_diff t tp) \<and>
    (\<exists>t \<in> set rs'. debounce_ms j < ticks_diff t tp)"
  then show "clicks (fst (poll_click j ((0, tp) # map (Pair 0) hs @ map (Pair 1) rs'))) = 0"
    by (intro long_hold_any_press) simp_all
  from a show "button_state_for_click
        (snd (poll_click j ((0, tp) # map (Pair 0) hs @ map (Pair 1) rs'))) = 0"
    by (intro long_hold_any_press) simp_all
next
  assume "\<forall>(v, t) \<in> set ps. lo \<le> t \<and> t \<le> lo + debounce_ms j'"
  then show "clicks (fst (poll_click j' (ps @ map (Pair w) ts))) \<le> 1"
    by (rule burst_then_settled_at_most_one_click)
qed

text \<open>
  The three cases of C4 with the default timing (debounce 50 ms, ceiling 300 ms): a hold
  of 100 ms, a hold of 400 ms, and a signal bouncing within 50 ms that settles inactive,
  its click paid out at 170 ms.
\<close>

theorem click_detector_witness:
  "fst (poll_click (Joystick_init 2048 2048 800 50 300 1 0 0)
          [(0, 100), (0, 120), (0, 140), (1, 200), (1, 220)]) =
     [False, False, False, True, False] \<and>
   clicks (fst (poll_click (Joystick_init 2048 2048 800 50 300 1 0 0)
          [(0, 100), (0, 120), (0, 140), (1, 500), (1, 520)])) = 0 \<and>
   button_state_for_click (snd (poll_click (Joystick_init 2048 2048 800 50 300 1 0 0)
          [(0, 100), (0, 120), (0, 140), (1, 500), (1, 520)])) = 0 \<and>
   clicks (fst (poll_click (Joystick_init 2048 2048 800 50 300 1 0 0)
          [(0, 100), (1, 120), (0, 130), (1, 150), (1, 170), (1, 190)])) \<le> 1"
  using click_detector
    [where j = "Joystick_init 2048 2048 800 50 300 1 0 0" and tp = 100 and tr = 200
       and hs = "[120, 140]" and rs = "[220]" and rs' = "[500, 520]"
       and ps = "[(0, 100), (1, 120), (0, 130), (1, 150)]" and lo = 100
       and w = 1 and ts = "[170, 190]"
       and j' = "Joystick_init 2048 2048 800 50 300 1 0 0"]
  by (simp add: Joystick_init_def ticks_diff_def)

text \<open>
  Claim C4 without the guard on the press fails. The joystick is constructed at 0 ms with
  the default timing. A signal that goes active at the poll of 30 ms, within the debounce
  window of the construction, and inactive again at 200 ms was held 170 ms, longer than
  the debounce window and shorter than the ceiling; the machine starts and ends in Idle
  and reports no click. The same happens to a second hold that starts 30 ms after the
  release of a first, reported, one.
\<close>

theorem click_hold_after_recent_transition_dropped:
  "button_state_for_click (Joystick_init 2048 2048 800 50 300 1 0 0) = 0 \<and>
   debounce_ms (Joystick_init 2048 2048 800 50 300 1 0 0) < ticks_diff 200 30 \<and>
   ticks_diff 200 30 < click_threshold_ms (Joystick_init 2048 2048 800 50 300 1 0 0) \<and>
   poll_click (Joystick_init 2048 2048 800 50 300 1 0 0)
     [(1, 10), (0, 30), (0, 100), (0, 150), (1, 200), (1, 220)] =
     ([False, False, False, False, False, False],
      Joystick_init 2048 2048 800 50 300 1 0 0) \<and>
   fst (poll_click (Joystick_init 2048 2048 800 50 300 1 0 0)
     [(0, 100), (1, 200), (0, 230), (0, 300), (1, 400), (1, 420)]) =
     [False, True, False, False, False, False] \<and>
   button_state_for_click (snd (poll_click (Joystick_init 2048 2048 800 50 300 1 0 0)
     [(0, 100), (1, 200), (0, 230), (0, 300), (1, 400), (1, 420)])) = 0"
  by (simp add: Joystick_init_def check_for_single_click_def ticks_diff_def)


section \<open>Properties of the menu rendering\<close>

text \<open>
  While no item list is retained, every call is a full repaint that leaves the retained
  state as it was: the assignment to \<^verbatim>\<open>_last_menu_state\<close> sits in the partial branch only.
\<close>

lemma draw_menu_without_retained_items:
  "items (last_menu_state ui) = None \<Longrightarrow>
   \<exists>cs. draw_menu ui its selected_index title sy = Inr (ui, Fill (bg_color ui) # cs)"
  by (simp add: draw_menu_def Let_def clear_screen_def)

text \<open>
  The partial branch itself does what is intended: with a retained state that matches the
  call, only rows \<open>i\<close> and \<open>j\<close> are redrawn, each as one fill and one text line, and the
  screen is not cleared. No call sequence that starts at the constructor reaches it.
\<close>

lemma draw_menu_partial_when_retained:
  assumes "items (last_menu_state ui) = Some its" and "start_y (last_menu_state ui) = sy"
    and "title_text (last_menu_state ui) = title" and "selected_idx (last_menu_state ui) = i"
    and "i \<noteq> j" and "0 \<le> i" and "i < int (length its)"
    and "0 \<le> j" and "j < int (length its)"
  shows "draw_menu ui its j title sy =
           Inr (ui\<lparr>last_menu_state :=
                     \<lparr>selected_idx = j, items = Some its, start_y = sy, title_text = title\<rparr>\<rparr>,
                draw_menu_item ui i (its ! nat i) sy
                  (if truthy title then char_height ui + line_spacing ui else 0) False @
                draw_menu_item ui j (its ! nat j) sy
                  (if truthy title then char_height ui + line_spacing ui else 0) True)"
  using assms by (simp add: draw_menu_def Let_def py_index_def)

text \<open>
  Claim C1 against the code. On a freshly constructed manager every \<^verbatim>\<open>draw_menu\<close> call,
  whatever its arguments, clears the screen and returns the manager unchanged, so the next
  call meets the same initial state again. On a 240 by 320 screen, \<^verbatim>\<open>draw_menu(["A", "B"],
  0, "T", 10)\<close> followed by \<^verbatim>\<open>draw_menu(["A", "B"], 1, "T", 10)\<close> repaints everything twice:
  the second call clears the screen and redraws the title and both rows instead of rows 0
  and 1 only. And with no title, \<^verbatim>\<open>draw_menu(["A", "B"], 1, None, 10)\<close>, the full repaint
  clears the screen and draws no item row at all: the loop over the items sits inside
  \<^verbatim>\<open>if title:\<close>.
\<close>

theorem draw_menu_always_full_repaint:
  "(\<exists>cs. draw_menu (UIManager_init screen tc bc hc) its selected_index title sy =
           Inr (UIManager_init screen tc bc hc,
                Fill (bg_color (UIManager_init screen tc bc hc)) # cs)) \<and>
   draw_menu (UIManager_init (fst (ST7789_init 240 320 True True True True 0)) None None None)
       [''A'', ''B''] 0 (Some ''T'') 10 =
     Inr (UIManager_init (fst (ST7789_init 240 320 True True True True 0)) None None None,
          [Fill 65535, Fill_rect 0 10 240 20 65535, Fill_rect 5 10 8 16 65535,
           Text ''T'' 5 10 63519, Fill_rect 0 30 240 20 31, Text ''A'' 5 34 63519,
           Fill_rect 0 54 240 20 65535, Text ''B'' 5 58 0]) \<and>
   draw_menu (UIManager_init (fst (ST7789_init 240 320 True True True True 0)) None None None)
       [''A'', ''B''] 1 (Some ''T'') 10 =
     Inr (UIManager_init (fst (ST7789_init 240 320 True True True True 0)) None None None,
          [Fill 65535, Fill_rect 0 10 240 20 65535, Fill_rect 5 10 8 16 65535,
           Text ''T'' 5 10 63519, Fill_rect 0 30 240 20 65535, Text ''A'' 5 34 0,
           Fill_rect 0 54 240 20 31, Text ''B'' 5 58 63519]) \<and>
   draw_menu (UIManager_init (fst (ST7789_init 240 320 True True True True 0)) None None None)
       [''A'', ''B''] 1 None 10 =
     Inr (UIManager_init (fst (ST7789_init 240 320 True True True True 0)) None None None,
          [Fill 65535])"
proof (intro conjI)
  show "\<exists>cs. draw_menu (UIManager_init screen tc bc hc) its selected_index title sy =
           Inr (UIManager_init screen tc bc hc,
                Fill (bg_color (UIManager_init screen tc bc hc)) # cs)"
    by (rule draw_menu_without_retained_items) (simp add: UIManager_init_def)
qed (simp_all add: draw_menu_def UIManager_init_def ST7789_init_def Let_def clear_screen_def
      truthy_def display_text_multiline_def display_text_line_def draw_char_internal_def
      draw_all_items_def draw_menu_item_def enumerate_eq_zip upt_rec
      WHITE_def BLACK_def GREEN_def YELLOW_def)

text \<open>
  The first part of the statement at a concrete call: a menu of one item, no title, on the
  manager of a 240 by 320 screen with the default colours.
\<close>

theorem draw_menu_always_full_repaint_witness:
  "\<exists>cs. draw_menu
          (UIManager_init (fst (ST7789_init 240 320 True True True True 0)) None None None)
          [''A''] 0 None 10 =
        Inr (UIManager_init (fst (ST7789_init 240 320 True True True True 0)) None None None,
             Fill 65535 # cs)"
  using draw_menu_always_full_repaint
    [of "fst (ST7789_init 240 320 True True True True 0)" None None None "[''A'']" 0 None 10]
  by (simp add: UIManager_init_def BLACK_def)

end
